theory Spec2Isabelle
  imports Complex_Main "HOL-Library.List_Lexorder" "HOL-Library.Char_ord"
begin

section \<open>Strings of the host language\<close>

text \<open>
  The module under verification is \<^verbatim>\<open>src/lib/youtube.ts\<close>. Its strings are modelled
  as \<^typ>\<open>string\<close> (one \<^typ>\<open>char\<close> per code unit, so only code units below 256 are
  covered), and a value that may be \<^verbatim>\<open>undefined\<close> or \<^verbatim>\<open>null\<close> as an
  \<^typ>\<open>'a option\<close>.
\<close>

text \<open>The characters matched by \<^verbatim>\<open>\s\<close>; they are also the ones \<^verbatim>\<open>ToNumber\<close> trims.\<close>

definition is_ws :: "char \<Rightarrow> bool" where
  "is_ws c = (c \<in> set [CHR 0x09, CHR 0x0A, CHR 0x0B, CHR 0x0C, CHR 0x0D, CHR 0x20, CHR 0xA0])"

text \<open>\<^verbatim>\<open>Array.prototype.join(sep)\<close> on an array of strings.\<close>

fun js_join :: "string \<Rightarrow> string list \<Rightarrow> string" where
  "js_join sep [] = []"
| "js_join sep [x] = x"
| "js_join sep (x # y # ys) = x @ sep @ js_join sep (y # ys)"

text \<open>\<^verbatim>\<open>String.prototype.startsWith\<close> and \<^verbatim>\<open>String.prototype.includes\<close>.\<close>

fun starts_with :: "string \<Rightarrow> string \<Rightarrow> bool" where
  "starts_with s [] = True"
| "starts_with [] (p # ps) = False"
| "starts_with (c # cs) (p # ps) = (c = p \<and> starts_with cs ps)"

fun includes_str :: "string \<Rightarrow> string \<Rightarrow> bool" where
  "includes_str [] pat = (pat = [])"
| "includes_str (c # cs) pat = (starts_with (c # cs) pat \<or> includes_str cs pat)"

text \<open>An exception of the host language, with its message.\<close>

datatype exn = Error string | TypeError string | RangeError string

section \<open>Numbers of the host language\<close>

text \<open>
  A number is an IEEE double: \<^verbatim>\<open>NaN\<close>, an infinity, or a finite value, kept as the
  rational it denotes. Arithmetic computes the exact result and rounds it to the nearest
  double, ties to the even significand (53 bits, exponents down to the subnormals, overflow
  to an infinity). The sign of zero is not kept.
\<close>

datatype number = NaN | Num rat | PosInf | NegInf

function bit_length :: "int \<Rightarrow> int" where
  "bit_length n = (if n \<le> 0 then 0 else 1 + bit_length (n div 2))"
  by pat_completeness auto
termination
  by (relation "measure nat") auto

text \<open>The exponent \<open>k\<close> with \<open>2 ^ k \<le> a < 2 ^ (k + 1)\<close>, for a positive \<open>a\<close>.\<close>

definition floor_log2 :: "rat \<Rightarrow> int" where
  "floor_log2 a =
     (let k = bit_length (fst (quotient_of a)) - bit_length (snd (quotient_of a))
      in if 2 powi k \<le> a then k else k - 1)"

definition round_half_even :: "rat \<Rightarrow> int" where
  "round_half_even m =
     (let f = \<lfloor>m\<rfloor>; d = m - of_int f
      in if d < 1 / 2 then f else if 1 / 2 < d then f + 1 else if even f then f else f + 1)"

text \<open>
  Rounding to a double: \<open>p\<close> is the exponent of the last place of the significand, \<open>r\<close>
  the significand rounded to an integer, and the result overflows when \<open>r * 2 ^ p\<close> has
  more than 1024 bits, that is, when it is \<open>2 ^ 1024\<close> or more.
\<close>

definition to_double :: "rat \<Rightarrow> number" where
  "to_double q =
     (if q = 0 then Num 0
      else
        let a = \<bar>q\<bar>;
            p = max (floor_log2 a - 52) (- 1074);
            r = round_half_even (a * 2 powi (- p))
        in if 1024 < bit_length r + p then (if 0 < q then PosInf else NegInf)
           else Num (if 0 < q then of_int r * 2 powi p else - (of_int r * 2 powi p)))"

text \<open>The binary \<^verbatim>\<open>+\<close>, \<^verbatim>\<open>-\<close> and \<^verbatim>\<open>*\<close> on two numbers, and the unary \<^verbatim>\<open>-\<close>.\<close>

fun js_neg :: "number \<Rightarrow> number" where
  "js_neg NaN = NaN"
| "js_neg (Num q) = Num (- q)"
| "js_neg PosInf = NegInf"
| "js_neg NegInf = PosInf"

fun js_add :: "number \<Rightarrow> number \<Rightarrow> number" where
  "js_add NaN y = NaN"
| "js_add x NaN = NaN"
| "js_add (Num a) (Num b) = to_double (a + b)"
| "js_add (Num a) y = y"
| "js_add PosInf NegInf = NaN"
| "js_add NegInf PosInf = NaN"
| "js_add x y = x"

definition js_sub :: "number \<Rightarrow> number \<Rightarrow> number" where
  "js_sub x y = js_add x (js_neg y)"

fun js_mul :: "number \<Rightarrow> number \<Rightarrow> number" where
  "js_mul NaN y = NaN"
| "js_mul x NaN = NaN"
| "js_mul (Num a) (Num b) = to_double (a * b)"
| "js_mul (Num a) y = (if a = 0 then NaN else if 0 < a then y else js_neg y)"
| "js_mul x (Num b) = (if b = 0 then NaN else if 0 < b then x else js_neg x)"
| "js_mul PosInf y = y"
| "js_mul NegInf y = js_neg y"

text \<open>
  \<^verbatim>\<open>Number(x || 0)\<close> on a number that may be missing: a missing value, \<^verbatim>\<open>0\<close> and
  \<^verbatim>\<open>NaN\<close> are falsy and give \<^verbatim>\<open>0\<close>.
\<close>

definition or_zero :: "number option \<Rightarrow> number" where
  "or_zero x =
     (case x of
        None \<Rightarrow> Num 0
      | Some NaN \<Rightarrow> Num 0
      | Some (Num q) \<Rightarrow> (if q = 0 then Num 0 else Num q)
      | Some v \<Rightarrow> v)"

subsection \<open>Numbers read from strings\<close>

definition is_digit :: "char \<Rightarrow> bool" where
  "is_digit c = (c \<in> set ''0123456789'')"

definition is_hex_digit :: "char \<Rightarrow> bool" where
  "is_hex_digit c = (c \<in> set ''0123456789abcdefABCDEF'')"

definition digit_val :: "char \<Rightarrow> int" where
  "digit_val c =
     (if is_digit c then of_char c - 48
      else if c \<in> set ''abcdef'' then of_char c - 87
      else of_char c - 55)"

definition digits_val :: "int \<Rightarrow> string \<Rightarrow> int" where
  "digits_val base ds = foldl (\<lambda>a c. base * a + digit_val c) 0 ds"

text \<open>\<^verbatim>\<open>0x\<close>, \<^verbatim>\<open>0o\<close> and \<^verbatim>\<open>0b\<close> literals: their digits, which may not be empty.\<close>

definition non_decimal :: "int \<Rightarrow> (char \<Rightarrow> bool) \<Rightarrow> string \<Rightarrow> number" where
  "non_decimal base ok ds =
     (if ds \<noteq> [] \<and> list_all ok ds then to_double (of_int (digits_val base ds)) else NaN)"

text \<open>The exponent after \<^verbatim>\<open>e\<close> or \<^verbatim>\<open>E\<close>: an optional sign and at least one digit.\<close>

definition unsigned_digits :: "string \<Rightarrow> int option" where
  "unsigned_digits ds =
     (if ds \<noteq> [] \<and> list_all is_digit ds then Some (digits_val 10 ds) else None)"

fun signed_integer :: "string \<Rightarrow> int option" where
  "signed_integer [] = None"
| "signed_integer (c # cs) =
     (if c = CHR ''+'' then unsigned_digits cs
      else if c = CHR ''-'' then map_option uminus (unsigned_digits cs)
      else unsigned_digits (c # cs))"

text \<open>Digits, with an optional fraction: \<^verbatim>\<open>12\<close>, \<^verbatim>\<open>12.\<close>, \<^verbatim>\<open>12.5\<close>, \<^verbatim>\<open>.5\<close>.\<close>

definition mantissa :: "string \<Rightarrow> rat option" where
  "mantissa m =
     (let ip = takeWhile (\<lambda>c. c \<noteq> CHR ''.'') m;
          rest = dropWhile (\<lambda>c. c \<noteq> CHR ''.'') m
      in if \<not> list_all is_digit ip then None
         else if rest = [] then (if ip = [] then None else Some (of_int (digits_val 10 ip)))
         else let fp = tl rest
              in if \<not> list_all is_digit fp \<or> (ip = [] \<and> fp = []) then None
                 else Some (of_int (digits_val 10 ip) +
                            of_int (digits_val 10 fp) / 10 ^ length fp))"

definition unsigned_decimal :: "string \<Rightarrow> number" where
  "unsigned_decimal r =
     (if r = ''Infinity'' then PosInf
      else let m = takeWhile (\<lambda>c. c \<noteq> CHR ''e'' \<and> c \<noteq> CHR ''E'') r;
               x = dropWhile (\<lambda>c. c \<noteq> CHR ''e'' \<and> c \<noteq> CHR ''E'') r
           in case mantissa m of
                None \<Rightarrow> NaN
              | Some q \<Rightarrow>
                  if x = [] then to_double q
                  else (case signed_integer (tl x) of
                          None \<Rightarrow> NaN
                        | Some k \<Rightarrow> to_double (q * 10 powi k)))"

definition trim :: "string \<Rightarrow> string" where
  "trim s = rev (dropWhile is_ws (rev (dropWhile is_ws s)))"

text \<open>
  \<^verbatim>\<open>ToNumber\<close> on a string: white space is trimmed, the empty string is \<^verbatim>\<open>0\<close>, a
  numeric literal is its value rounded to a double, and every other string is \<^verbatim>\<open>NaN\<close>.
\<close>

definition to_number :: "string \<Rightarrow> number" where
  "to_number s =
     (let t = trim s
      in if t = [] then Num 0
         else if starts_with t ''0x'' \<or> starts_with t ''0X'' then non_decimal 16 is_hex_digit (drop 2 t)
         else if starts_with t ''0o'' \<or> starts_with t ''0O''
           then non_decimal 8 (\<lambda>c. c \<in> set ''01234567'') (drop 2 t)
         else if starts_with t ''0b'' \<or> starts_with t ''0B''
           then non_decimal 2 (\<lambda>c. c \<in> set ''01'') (drop 2 t)
         else if hd t = CHR ''+'' then unsigned_decimal (tl t)
         else if hd t = CHR ''-'' then js_neg (unsigned_decimal (tl t))
         else unsigned_decimal t)"

section \<open>Sorting with a comparator\<close>

text \<open>
  \<^verbatim>\<open>Array.prototype.sort(comparefn)\<close> looks only at the sign of what the comparator
  returns, a \<^verbatim>\<open>NaN\<close> counting as \<^verbatim>\<open>+0\<close>.
\<close>

definition sort_compare :: "('a \<Rightarrow> 'a \<Rightarrow> number) \<Rightarrow> 'a \<Rightarrow> 'a \<Rightarrow> int" where
  "sort_compare comparefn x y =
     (case comparefn x y of
        NaN \<Rightarrow> 0
      | Num q \<Rightarrow> (if q < 0 then - 1 else if 0 < q then 1 else 0)
      | PosInf \<Rightarrow> 1
      | NegInf \<Rightarrow> - 1)"

text \<open>
  The comparator is consistent on the elements when these signs make them a totally
  ordered set of classes of equal elements: equality is reflexive, symmetric and transitive,
  and so are less and greater.
\<close>

definition consistent :: "('a \<Rightarrow> 'a \<Rightarrow> number) \<Rightarrow> 'a list \<Rightarrow> bool" where
  "consistent comparefn xs =
     list_all (\<lambda>a. list_all (\<lambda>b. list_all (\<lambda>c.
        sort_compare comparefn a a = 0 \<and>
        (sort_compare comparefn a b = 0 \<longrightarrow> sort_compare comparefn b a = 0) \<and>
        (sort_compare comparefn a b = 0 \<and> sort_compare comparefn b c = 0
           \<longrightarrow> sort_compare comparefn a c = 0) \<and>
        (sort_compare comparefn a b < 0 \<and> sort_compare comparefn b c < 0
           \<longrightarrow> sort_compare comparefn a c < 0) \<and>
        (0 < sort_compare comparefn a b \<and> 0 < sort_compare comparefn b c
           \<longrightarrow> 0 < sort_compare comparefn a c)) xs) xs) xs"

text \<open>
  With a consistent comparator the result is the sorted order in which equal elements keep
  their order (the sort is stable): an element moves behind another only when the
  comparator is positive. Otherwise the order is left to the engine, a parameter.
\<close>

fun insert_sorted :: "('a \<Rightarrow> 'a \<Rightarrow> number) \<Rightarrow> 'a \<Rightarrow> 'a list \<Rightarrow> 'a list" where
  "insert_sorted comparefn x [] = [x]"
| "insert_sorted comparefn x (y # ys) =
     (if 0 < sort_compare comparefn x y then y # insert_sorted comparefn x ys
      else x # y # ys)"

definition array_sort ::
    "('a list \<Rightarrow> 'a list) \<Rightarrow> ('a \<Rightarrow> 'a \<Rightarrow> number) \<Rightarrow> 'a list \<Rightarrow> 'a list" where
  "array_sort engine comparefn xs =
     (if consistent comparefn xs then foldr (insert_sorted comparefn) xs [] else engine xs)"

section \<open>Collaborators\<close>

record raw_entry =
  entry_text :: string
  offset :: "number option"
  duration :: "number option"

record segment =
  seg_start :: string
  seg_end :: string
  seg_text :: string
  seg_isChapterStart :: bool

record user =
  user_id :: string

record user_video =
  uv_id :: int
  uv_userId :: string
  uv_youtubeId :: string
  uv_summary :: string

record transcript_row =
  row_videoId :: string
  row_start :: string
  row_end :: string
  row_text :: string
  row_isChapterStart :: bool

text \<open>The arguments of the usage-tracking sink (lines 267-275).\<close>

record usage =
  usage_userId :: string
  usage_model :: string
  usage_provider :: string
  usage_operation :: string
  usage_videoId :: "string option"
  usage_userVideoId :: "int option"
  usage_requestDuration :: int

text \<open>The persisted state: the tables behind the repositories and the usage sink.\<close>

record db =
  transcript_rows :: "transcript_row list"
  user_videos :: "user_video list"
  quick_start_questions :: "(int \<times> string list) list"
  usage_records :: "usage list"

datatype language = En | Id

text \<open>The typed object of the structured-generation service; both levels may be absent.\<close>

record generated_object =
  questions :: "string list option"

record generate_result =
  object :: "generated_object option"

datatype repo_call =
  GetByVideoId | UpsertSegments | GetByUserAndYoutubeId | UpsertUserVideo
  | UpdateQuickStartQuestions

text \<open>
  What the surroundings answer during one invocation. \<^verbatim>\<open>getCurrentUser\<close> is indexed by
  the call (the first call of the invocation is call 0) and may give no user;
  \<^verbatim>\<open>now\<close> likewise gives the readings of \<^verbatim>\<open>Date.now()\<close>. \<^verbatim>\<open>repo_fault\<close> names
  the exception with which a repository call rejects, if it does. \<^verbatim>\<open>formatTime\<close> is
  imported from \<^verbatim>\<open>@/lib/utils\<close>, outside this module. The host's time zone enters
  through \<open>epoch_midnight\<close>, the time value (in milliseconds) of local midnight of the local
  day of the epoch, and \<open>timezone_offset\<close>, the milliseconds by which local time is ahead
  of UTC at a time value. \<open>sort_inconsistent\<close> is the order in which the engine leaves
  segments that it is asked to sort with an inconsistent comparator.
\<close>

record env =
  getCurrentUser :: "nat \<Rightarrow> exn + user option"
  getPreferredLanguage :: "string \<Rightarrow> exn + string option"
  fetchTranscript :: "string \<Rightarrow> exn + raw_entry list option"
  formatTime :: "number \<Rightarrow> exn + string"
  epoch_midnight :: int
  timezone_offset :: "int \<Rightarrow> int"
  sort_inconsistent :: "segment list \<Rightarrow> segment list"
  repo_fault :: "repo_call \<Rightarrow> exn option"
  getQuickStartPrompt :: "language \<Rightarrow> string"
  generateObject :: "string \<Rightarrow> exn + generate_result"
  trackGenerateTextUsage :: "generate_result \<Rightarrow> usage \<Rightarrow> exn option"
  generateSummary :: "string \<Rightarrow> language \<Rightarrow> string \<Rightarrow> int option \<Rightarrow> exn + string"
  now :: "nat \<Rightarrow> int"

section \<open>Clock strings\<close>

text \<open>
  A date is its time value, the milliseconds since the epoch, or invalid (\<open>None\<close>).
  Making a date from a number gives an invalid date when the number is not finite or beyond
  8.64e15 in size, and drops the fraction otherwise.
\<close>

definition TimeClip :: "number \<Rightarrow> int option" where
  "TimeClip v =
     (case v of
        Num q \<Rightarrow>
          if 8640000000000000 < \<bar>q\<bar> then None
          else Some (if 0 \<le> q then \<lfloor>q\<rfloor> else \<lceil>q\<rceil>)
      | _ \<Rightarrow> None)"

text \<open>
  \<^verbatim>\<open>baseDate\<close> (lines 163-164) is local midnight of the local day of the epoch.
  \<^verbatim>\<open>addSeconds\<close> and \<^verbatim>\<open>format\<close> come from \<^verbatim>\<open>date-fns\<close> (as of its version 3,
  which no longer cuts the amount to a whole number): the first adds \<^verbatim>\<open>amount * 1000\<close>
  to the time value and makes a date of the sum; the second throws a \<^verbatim>\<open>RangeError\<close> on
  an invalid date and otherwise prints the local clock time.
\<close>

definition baseDate :: "env \<Rightarrow> int option" where
  "baseDate e = Some (epoch_midnight e)"

definition addMilliseconds :: "int option \<Rightarrow> number \<Rightarrow> int option" where
  "addMilliseconds date amount =
     (case date of None \<Rightarrow> None | Some t \<Rightarrow> TimeClip (js_add (Num (of_int t)) amount))"

definition addSeconds :: "int option \<Rightarrow> number \<Rightarrow> int option" where
  "addSeconds date amount = addMilliseconds date (js_mul amount (Num 1000))"

definition pad2 :: "nat \<Rightarrow> string" where
  "pad2 n = [''0123456789'' ! (n div 10 mod 10), ''0123456789'' ! (n mod 10)]"

definition format_HHmmss :: "env \<Rightarrow> int option \<Rightarrow> exn + string" where
  "format_HHmmss e date =
     (case date of
        None \<Rightarrow> Inl (RangeError ''Invalid time value'')
      | Some t \<Rightarrow>
          (let local = t + timezone_offset e t
           in Inr (pad2 (nat (local div 3600000 mod 24)) @ '':''
                   @ pad2 (nat (local div 60000 mod 60)) @ '':''
                   @ pad2 (nat (local div 1000 mod 60)))))"

section \<open>Transcript normalization\<close>

text \<open>The flag computed at lines 169-172 from the entry's text and its index.\<close>

definition isChapterStart :: "string \<Rightarrow> nat \<Rightarrow> bool" where
  "isChapterStart text index =
     (length text < 30 \<and> \<not> includes_str text ''segment'' \<and> text \<noteq> ''N/A'' \<and>
      (index = 0 \<or> index mod 10 = 0))"

text \<open>
  The callback of \<^verbatim>\<open>transcriptResult.map\<close> (lines 159-180). The object of lines
  174-179 is built field by field, so the first of the two \<^verbatim>\<open>format\<close> calls and the
  \<^verbatim>\<open>formatTime\<close> call that throws ends the callback. The provider types the text of an
  entry as a string.
\<close>

definition normalize_entry :: "env \<Rightarrow> raw_entry \<Rightarrow> nat \<Rightarrow> exn + segment" where
  "normalize_entry e item index =
     (let start = or_zero (offset item);
          end' = js_add start (or_zero (duration item));
          startTime = addSeconds (baseDate e) start;
          endTime = addSeconds (baseDate e) end';
          flag = isChapterStart (entry_text item) index
      in case format_HHmmss e startTime of
           Inl x \<Rightarrow> Inl x
         | Inr formattedStart \<Rightarrow>
             (case format_HHmmss e endTime of
                Inl x \<Rightarrow> Inl x
              | Inr formattedEnd \<Rightarrow>
                  (case (if entry_text item \<noteq> ''N/A'' then Inr (entry_text item)
                         else (case formatTime e start of
                                 Inl x \<Rightarrow> Inl x
                               | Inr short \<Rightarrow> Inr (''Segment at '' @ short))) of
                     Inl x \<Rightarrow> Inl x
                   | Inr txt \<Rightarrow>
                       Inr \<lparr> seg_start = formattedStart, seg_end = formattedEnd,
                             seg_text = txt, seg_isChapterStart = flag \<rparr>)))"

text \<open>
  \<^verbatim>\<open>Array.prototype.map\<close> with the index: the entries are taken in order, and an
  exception of the callback ends the map.
\<close>

fun normalize_from :: "env \<Rightarrow> nat \<Rightarrow> raw_entry list \<Rightarrow> exn + segment list" where
  "normalize_from e index [] = Inr []"
| "normalize_from e index (item # rest) =
     (case normalize_entry e item index of
        Inl x \<Rightarrow> Inl x
      | Inr g \<Rightarrow>
          (case normalize_from e (Suc index) rest of
             Inl x \<Rightarrow> Inl x
           | Inr gs \<Rightarrow> Inr (g # gs)))"

definition normalize_transcript :: "env \<Rightarrow> raw_entry list \<Rightarrow> exn + segment list" where
  "normalize_transcript e transcriptResult = normalize_from e 0 transcriptResult"

section \<open>Repositories\<close>

text \<open>Reading \<^verbatim>\<open>user.id\<close>: a \<^verbatim>\<open>TypeError\<close> when there is no user.\<close>

definition id_of :: "user option \<Rightarrow> exn + string" where
  "id_of u = (case u of None \<Rightarrow> Inl (TypeError ''Cannot read properties of null (reading id)'')
                      | Some usr \<Rightarrow> Inr (user_id usr))"

text \<open>
  The repositories of \<^verbatim>\<open>@/lib/db/repository\<close> lie outside this module. Each is
  modelled on the tables of \<^typ>\<open>db\<close>; a call that rejects (see \<open>repo_fault\<close>) leaves
  the tables as they were.
\<close>

text \<open>
  Modelled from the spec: \<^verbatim>\<open>TranscriptRepository.getByVideoId\<close>, the read of the stored
  segments by video id. It returns the rows of that video in stored order.
\<close>

definition TranscriptRepository_getByVideoId ::
    "env \<Rightarrow> string \<Rightarrow> db \<Rightarrow> exn + transcript_row list" where
  "TranscriptRepository_getByVideoId e videoId s =
     (case repo_fault e GetByVideoId of
        Some x \<Rightarrow> Inl x
      | None \<Rightarrow> Inr (filter (\<lambda>r. row_videoId r = videoId) (transcript_rows s)))"

text \<open>
  Modelled from the spec: \<^verbatim>\<open>TranscriptRepository.upsertSegments\<close>, the bulk upsert of
  the normalized segments keyed by video id. It replaces the rows of the video, so that
  repeating it creates no duplicates.
\<close>

definition to_row :: "string \<Rightarrow> segment \<Rightarrow> transcript_row" where
  "to_row videoId g =
     \<lparr> row_videoId = videoId, row_start = seg_start g, row_end = seg_end g,
       row_text = seg_text g, row_isChapterStart = seg_isChapterStart g \<rparr>"

definition TranscriptRepository_upsertSegments ::
    "env \<Rightarrow> string \<Rightarrow> segment list \<Rightarrow> db \<Rightarrow> exn + db" where
  "TranscriptRepository_upsertSegments e videoId segs s =
     (case repo_fault e UpsertSegments of
        Some x \<Rightarrow> Inl x
      | None \<Rightarrow>
          Inr (s\<lparr> transcript_rows :=
                    filter (\<lambda>r. row_videoId r \<noteq> videoId) (transcript_rows s)
                    @ map (to_row videoId) segs \<rparr>))"

text \<open>
  Modelled from the spec: \<^verbatim>\<open>UserVideoRepository.getByUserAndYoutubeId\<close>, the read of the
  association of a (user, video) pair, of which there is at most one.
\<close>

definition UserVideoRepository_getByUserAndYoutubeId ::
    "env \<Rightarrow> string \<Rightarrow> string \<Rightarrow> db \<Rightarrow> exn + user_video option" where
  "UserVideoRepository_getByUserAndYoutubeId e userId youtubeId s =
     (case repo_fault e GetByUserAndYoutubeId of
        Some x \<Rightarrow> Inl x
      | None \<Rightarrow>
          Inr (find (\<lambda>uv. uv_userId uv = userId \<and> uv_youtubeId uv = youtubeId)
                 (user_videos s)))"

text \<open>
  Modelled from the spec: \<^verbatim>\<open>UserVideoRepository.upsert\<close>, which creates the association
  of the pair with a fresh id when there is none and overwrites its summary otherwise; it
  returns the association.
\<close>

definition fresh_id :: "user_video list \<Rightarrow> int" where
  "fresh_id uvs = 1 + foldr max (map uv_id uvs) 0"

definition UserVideoRepository_upsert ::
    "env \<Rightarrow> string \<Rightarrow> string \<Rightarrow> string \<Rightarrow> db \<Rightarrow> exn + user_video \<times> db" where
  "UserVideoRepository_upsert e userId youtubeId summary s =
     (case repo_fault e UpsertUserVideo of
        Some x \<Rightarrow> Inl x
      | None \<Rightarrow>
          (case find (\<lambda>uv. uv_userId uv = userId \<and> uv_youtubeId uv = youtubeId)
                  (user_videos s) of
             Some uv \<Rightarrow>
               Inr (uv\<lparr>uv_summary := summary\<rparr>,
                    s\<lparr> user_videos :=
                         map (\<lambda>v. if uv_userId v = userId \<and> uv_youtubeId v = youtubeId
                                   then v\<lparr>uv_summary := summary\<rparr> else v)
                           (user_videos s) \<rparr>)
           | None \<Rightarrow>
               (let uv = \<lparr> uv_id = fresh_id (user_videos s), uv_userId = userId,
                           uv_youtubeId = youtubeId, uv_summary = summary \<rparr>
                in Inr (uv, s\<lparr> user_videos := user_videos s @ [uv] \<rparr>))))"


section \<open>fetchVideoTranscript\<close>

record transcript_result =
  segments :: "segment list"
  error :: bool
  errorMessage :: "string option"
  userVideo :: "user_video option"

text \<open>The projection of a stored row (lines 135-140) and the comparator of line 141.\<close>

definition of_row :: "transcript_row \<Rightarrow> segment" where
  "of_row item =
     \<lparr> seg_start = row_start item, seg_end = row_end item, seg_text = row_text item,
       seg_isChapterStart = row_isChapterStart item \<rparr>"

definition by_start :: "segment \<Rightarrow> segment \<Rightarrow> number" where
  "by_start a b = js_sub (to_number (seg_start a)) (to_number (seg_start b))"

text \<open>
  Lines 142-149 and again 184-191: look the association up, and create it with an empty
  summary when there is none.
\<close>

definition get_or_create_userVideo ::
    "env \<Rightarrow> user option \<Rightarrow> string \<Rightarrow> db \<Rightarrow> (exn + user_video) \<times> db" where
  "get_or_create_userVideo e usr videoId s =
     (case id_of usr of
        Inl x \<Rightarrow> (Inl x, s)
      | Inr uid \<Rightarrow>
          (case UserVideoRepository_getByUserAndYoutubeId e uid videoId s of
             Inl x \<Rightarrow> (Inl x, s)
           | Inr (Some uv) \<Rightarrow> (Inr uv, s)
           | Inr None \<Rightarrow>
               (case UserVideoRepository_upsert e uid videoId [] s of
                  Inl x \<Rightarrow> (Inl x, s)
                | Inr (uv, s') \<Rightarrow> (Inr uv, s'))))"

text \<open>The body of the \<^verbatim>\<open>try\<close> block (lines 131-196): an exception is \<open>Inl\<close>.\<close>

definition fetchVideoTranscript_try ::
    "env \<Rightarrow> string \<Rightarrow> db \<Rightarrow> (exn + transcript_result) \<times> db" where
  "fetchVideoTranscript_try e videoId s =
     (case getCurrentUser e 0 of
        Inl x \<Rightarrow> (Inl x, s)
      | Inr usr \<Rightarrow>
     (case TranscriptRepository_getByVideoId e videoId s of
        Inl x \<Rightarrow> (Inl x, s)
      | Inr dbSegments \<Rightarrow>
          if length dbSegments > 0 then
            (let segs = array_sort (sort_inconsistent e) by_start (map of_row dbSegments)
             in case get_or_create_userVideo e usr videoId s of
                  (Inl x, s') \<Rightarrow> (Inl x, s')
                | (Inr uv, s') \<Rightarrow>
                    (Inr \<lparr> segments = segs, error = False, errorMessage = None,
                           userVideo = Some uv \<rparr>, s'))
          else
            (case fetchTranscript e videoId of
               Inl x \<Rightarrow> (Inl x, s)
             | Inr transcriptResult \<Rightarrow>
                 if transcriptResult = None \<or> length (the transcriptResult) = 0
                 then (Inl (Error ''No transcript content available''), s)
                 else
                   (case normalize_transcript e (the transcriptResult) of
                      Inl x \<Rightarrow> (Inl x, s)
                    | Inr segs \<Rightarrow>
                        (case TranscriptRepository_upsertSegments e videoId segs s of
                           Inl x \<Rightarrow> (Inl x, s)
                         | Inr s1 \<Rightarrow>
                             (case get_or_create_userVideo e usr videoId s1 of
                                (Inl x, s2) \<Rightarrow> (Inl x, s2)
                              | (Inr uv, s2) \<Rightarrow>
                                  (Inr \<lparr> segments = segs, error = False,
                                         errorMessage = None, userVideo = Some uv \<rparr>,
                                   s2)))))))"

text \<open>The result of the \<^verbatim>\<open>catch\<close> block (lines 200-205).\<close>

definition unavailable :: transcript_result where
  "unavailable =
     \<lparr> segments = [], error = True,
       errorMessage = Some ''Transcript not available for this video'', userVideo = None \<rparr>"

definition fetchVideoTranscript :: "env \<Rightarrow> string \<Rightarrow> db \<Rightarrow> transcript_result \<times> db" where
  "fetchVideoTranscript e videoId s =
     (case fetchVideoTranscript_try e videoId s of
        (Inl x, s') \<Rightarrow> (unavailable, s')
      | (Inr r, s') \<Rightarrow> (r, s'))"

section \<open>Language preference\<close>

text \<open>
  Lines 20-29 and again 216-225: the language starts as \<^verbatim>\<open>en\<close>, and is replaced by
  the stored preference only when that is \<^verbatim>\<open>en\<close> or \<^verbatim>\<open>id\<close>; whatever the
  \<^verbatim>\<open>try\<close> block throws is caught. \<open>call\<close> says which call of \<^verbatim>\<open>getCurrentUser\<close>
  of the invocation this is.
\<close>

definition resolve_language :: "env \<Rightarrow> nat \<Rightarrow> language" where
  "resolve_language e call =
     (case getCurrentUser e call of
        Inl x \<Rightarrow> En
      | Inr usr \<Rightarrow>
          (case id_of usr of
             Inl x \<Rightarrow> En
           | Inr uid \<Rightarrow>
               (case getPreferredLanguage e uid of
                  Inl x \<Rightarrow> En
                | Inr savedLanguage \<Rightarrow>
                    if savedLanguage = Some ''en'' then En
                    else if savedLanguage = Some ''id'' then Id
                    else En)))"

section \<open>generateUserVideoSummary\<close>

record video =
  title :: string
  description :: "string option"
  youtubeId :: string

definition nl :: string where
  "nl = [CHR 0x0A]"



section \<open>generateQuickStartQuestions\<close>

text \<open>
  \<^verbatim>\<open>String.prototype.split(/\s+/)\<close>: the pieces between the maximal runs of white space.
  White space at the start or at the end of the string gives an empty first or last piece,
  and the empty string gives one empty piece. \<open>cur\<close> is the piece being read.
\<close>

function split_ws_from :: "string \<Rightarrow> string \<Rightarrow> string list" where
  "split_ws_from cur [] = [cur]"
| "split_ws_from cur (c # cs) =
     (if is_ws c then cur # split_ws_from [] (dropWhile is_ws cs)
      else split_ws_from (cur @ [c]) cs)"
  by pat_completeness auto
termination
  by (relation "measure (\<lambda>(cur, s). length s)")
     (auto intro: le_imp_less_Suc length_dropWhile_le)

definition split_ws :: "string \<Rightarrow> string list" where
  "split_ws s = split_ws_from [] s"

text \<open>Lines 228-232.\<close>

definition truncatedTranscript :: "segment list \<Rightarrow> string" where
  "truncatedTranscript transcriptSegments =
     (let fullTranscript = js_join '' '' (map seg_text transcriptSegments);
          words = split_ws fullTranscript
      in js_join '' '' (take 6000 words))"

text \<open>Truthiness of an optional string and of an optional number.\<close>

definition truthy_string :: "string option \<Rightarrow> bool" where
  "truthy_string x = (case x of None \<Rightarrow> False | Some t \<Rightarrow> t \<noteq> [])"


text \<open>Lines 237-252.\<close>

definition contextSection :: "string option \<Rightarrow> string option \<Rightarrow> string" where
  "contextSection videoTitle videoDescription =
     (if truthy_string videoTitle then ''Video Title: '' @ the videoTitle @ nl else [])
     @ (if truthy_string videoDescription
        then ''Video Description: '' @ the videoDescription @ nl else [])"

definition build_prompt :: "string \<Rightarrow> string \<Rightarrow> string \<Rightarrow> string" where
  "build_prompt promptText ctx truncated =
     promptText @ nl @ nl @ (if ctx \<noteq> [] then ctx @ nl else [])
     @ ''Here is the video transcript:'' @ nl @ nl @ ''<transcript>'' @ nl
     @ truncated @ nl @ ''</transcript>'' @ nl"




text \<open>The prompt of lines 216-252, as it is handed to \<^verbatim>\<open>generateObject\<close>.\<close>

definition quick_start_prompt ::
    "env \<Rightarrow> segment list \<Rightarrow> string option \<Rightarrow> string option \<Rightarrow> string" where
  "quick_start_prompt e transcriptSegments videoTitle videoDescription =
     (let userLanguage = resolve_language e 0;
          promptText = getQuickStartPrompt e userLanguage
      in build_prompt promptText (contextSection videoTitle videoDescription)
           (truncatedTranscript transcriptSegments))"


section \<open>Notions of the specification\<close>

text \<open>
  The white-space-delimited tokens of a string: its maximal runs of characters that are not
  white space, in order. \<open>cur\<close> is the run being read.
\<close>

fun tokens_from :: "string \<Rightarrow> string \<Rightarrow> string list" where
  "tokens_from cur [] = (if cur = [] then [] else [cur])"
| "tokens_from cur (c # cs) =
     (if is_ws c then (if cur = [] then tokens_from [] cs else cur # tokens_from [] cs)
      else tokens_from (cur @ [c]) cs)"

definition tokens :: "string \<Rightarrow> string list" where
  "tokens s = tokens_from [] s"

text \<open>A clock string \<^verbatim>\<open>HH:mm:ss\<close>: two digits, a colon, two digits, a colon, two digits.\<close>

fun is_HHmmss :: "string \<Rightarrow> bool" where
  "is_HHmmss [h1, h2, c1, m1, m2, c2, s1, s2] =
     (is_digit h1 \<and> is_digit h2 \<and> c1 = CHR '':'' \<and> is_digit m1 \<and> is_digit m2 \<and>
      c2 = CHR '':'' \<and> is_digit s1 \<and> is_digit s2)"
| "is_HHmmss s = False"


section \<open>Concrete situations\<close>

text \<open>
  A surrounding in which every collaborator answers, on a host whose local time is UTC; an
  empty store, and a store that holds two rows of one video, the later clock string first.
\<close>

definition demo_entries :: "raw_entry list" where
  "demo_entries =
     [\<lparr> entry_text = ''Intro'', offset = Some (Num 5), duration = Some (Num (3 / 2)) \<rparr>,
      \<lparr> entry_text = ''N/A'', offset = None, duration = None \<rparr>]"

definition demo_env :: env where
  "demo_env =
     \<lparr> getCurrentUser = (\<lambda>n. Inr (Some \<lparr> user_id = ''u1'' \<rparr>)),
       getPreferredLanguage = (\<lambda>uid. Inr (Some ''id'')),
       fetchTranscript = (\<lambda>v. Inr (Some demo_entries)),
       formatTime = (\<lambda>t. Inr ''0:00''),
       epoch_midnight = 0,
       timezone_offset = (\<lambda>t. 0),
       sort_inconsistent = (\<lambda>xs. xs),
       repo_fault = (\<lambda>c. None),
       getQuickStartPrompt = (\<lambda>l. ''Ask.''),
       generateObject = (\<lambda>p. Inr \<lparr> object = Some \<lparr> questions = Some [''Q1''] \<rparr> \<rparr>),
       trackGenerateTextUsage = (\<lambda>r u. None),
       generateSummary = (\<lambda>t l v u. Inr t),
       now = (\<lambda>n. 1000 * int n) \<rparr>"

definition empty_db :: db where
  "empty_db =
     \<lparr> transcript_rows = [], user_videos = [], quick_start_questions = [],
       usage_records = [] \<rparr>"

definition shuffled_db :: db where
  "shuffled_db =
     empty_db \<lparr> transcript_rows :=
       [\<lparr> row_videoId = ''v1'', row_start = ''00:00:05'', row_end = ''00:00:07'',
          row_text = ''second'', row_isChapterStart = False \<rparr>,
        \<lparr> row_videoId = ''v1'', row_start = ''00:00:01'', row_end = ''00:00:05'',
          row_text = ''first'', row_isChapterStart = True \<rparr>] \<rparr>"



definition sink_down_env :: env where
  "sink_down_env = demo_env \<lparr> trackGenerateTextUsage := (\<lambda>r u. Some (Error ''sink'')) \<rparr>"


definition sink_and_store_down_env :: env where
  "sink_and_store_down_env =
     sink_down_env \<lparr> repo_fault :=
       (\<lambda>c. if c = UpdateQuickStartQuestions then Some (Error ''db'') else None) \<rparr>"



text \<open>
  A transcript of 6001 segments: the first has an empty text, each of the others is one
  word.
\<close>

definition lead_segments :: "segment list" where
  "lead_segments =
     map (\<lambda>t. \<lparr> seg_start = ''00:00:00'', seg_end = ''00:00:00'', seg_text = t,
                seg_isChapterStart = False \<rparr>)
       ([] # replicate 6000 ''a'')"

section \<open>The chapter heuristic\<close>

lemma starts_with_iff: "starts_with s p \<longleftrightarrow> (\<exists>r. s = p @ r)"
  by (induction s p rule: starts_with.induct) auto

lemma includes_str_iff: "includes_str s p \<longleftrightarrow> (\<exists>ps ss. s = ps @ p @ ss)"
proof (induction s)
  case Nil
  then show ?case by auto
next
  case (Cons c cs)
  show ?case
  proof
    assume "includes_str (c # cs) p"
    then consider "starts_with (c # cs) p" | "includes_str cs p" by auto
    then show "\<exists>ps ss. c # cs = ps @ p @ ss"
    proof cases
      case 1
      then obtain r where "c # cs = p @ r" by (auto simp: starts_with_iff)
      then have "c # cs = [] @ p @ r" by simp
      then show ?thesis by blast
    next
      case 2
      then obtain ps ss where "cs = ps @ p @ ss" using Cons.IH by blast
      then have "c # cs = (c # ps) @ p @ ss" by simp
      then show ?thesis by blast
    qed
  next
    assume "\<exists>ps ss. c # cs = ps @ p @ ss"
    then obtain ps ss where eq: "c # cs = ps @ p @ ss" by blast
    show "includes_str (c # cs) p"
    proof (cases ps)
      case Nil
      with eq have "starts_with (c # cs) p" by (auto simp: starts_with_iff)
      then show ?thesis by simp
    next
      case (Cons a as)
      with eq have "cs = as @ p @ ss" by simp
      then have "includes_str cs p" using Cons.IH by blast
      then show ?thesis by simp
    qed
  qed
qed

text \<open>
  Claim C2. For every entry text \<open>t\<close> and 0-based index \<open>i\<close>, the chapter-start flag computed
  during normalization is true if and only if \<open>t\<close> has fewer than 30 characters, \<open>t\<close> does
  not contain the substring \<^verbatim>\<open>segment\<close>, \<open>t\<close> is not \<^verbatim>\<open>N/A\<close>, and \<open>i\<close> is 0 or a
  multiple of 10. The flag of the segment produced from an entry at index \<open>i\<close> is this value.
\<close>

theorem isChapterStart_iff:
  "(isChapterStart t i \<longleftrightarrow>
      length t < 30 \<and> (\<nexists>ps ss. t = ps @ ''segment'' @ ss) \<and> t \<noteq> ''N/A'' \<and>
      (i = 0 \<or> i mod 10 = 0)) \<and>
   (\<forall>g. normalize_entry e \<lparr> entry_text = t, offset = off, duration = dur \<rparr> i = Inr g
        \<longrightarrow> seg_isChapterStart g = isChapterStart t i)"
  by (auto simp: isChapterStart_def includes_str_iff normalize_entry_def Let_def
        split: sum.splits if_splits)

theorem isChapterStart_iff_witness:
  "normalize_entry demo_env
     \<lparr> entry_text = ''Intro'', offset = Some (Num 5), duration = Some (Num (3 / 2)) \<rparr> 10 =
     Inr \<lparr> seg_start = ''00:00:05'', seg_end = ''00:00:06'', seg_text = ''Intro'',
           seg_isChapterStart = True \<rparr> \<and>
   isChapterStart ''Intro'' 10 \<and> \<not> isChapterStart ''Intro'' 9 \<and>
   \<not> isChapterStart ''012345678901234567890123456789'' 0 \<and>
   \<not> isChapterStart ''a segment'' 0"
proof -
  have n: "normalize_entry demo_env
      \<lparr> entry_text = ''Intro'', offset = Some (Num 5), duration = Some (Num (3 / 2)) \<rparr> 10 =
      Inr \<lparr> seg_start = ''00:00:05'', seg_end = ''00:00:06'', seg_text = ''Intro'',
            seg_isChapterStart = True \<rparr>"
    by code_simp
  have sub: "\<nexists>ps ss. ''Intro'' = ps @ ''segment'' @ ss"
    using includes_str_iff [of "''Intro''" "''segment''"] by simp
  have sub': "\<exists>ps ss. ''a segment'' = ps @ ''segment'' @ ss"
    using includes_str_iff [of "''a segment''" "''segment''"] by simp
  from isChapterStart_iff [where t = "''Intro''" and i = 10 and e = demo_env
        and off = "Some (Num 5)" and dur = "Some (Num (3 / 2))"]
    isChapterStart_iff [where t = "''Intro''" and i = 9 and e = demo_env
        and off = None and dur = None]
    isChapterStart_iff [where t = "''012345678901234567890123456789''" and i = 0
        and e = demo_env and off = None and dur = None]
    isChapterStart_iff [where t = "''a segment''" and i = 0 and e = demo_env
        and off = None and dur = None]
    n sub sub'
  show ?thesis by simp
qed

section \<open>Normalization\<close>



lemma format_HHmmss_invalid: "format_HHmmss e None = Inl (RangeError ''Invalid time value'')"
  by (simp add: format_HHmmss_def)






text \<open>
  Sums are rounded as doubles (0.7 + 0.3 is 1), a time value loses its fraction towards zero
  (0.1 ms before the base date is the base date), and the clock is the local one (an hour
  later once the offset of the zone has grown by an hour).
\<close>

lemma js_add_rounds: "js_add (to_double (7 / 10)) (to_double (3 / 10)) = Num 1"
  by code_simp

lemma normalize_entry_rounded_end:
  "normalize_entry demo_env
     \<lparr> entry_text = ''x'', offset = Some (to_double (7 / 10)),
       duration = Some (to_double (3 / 10)) \<rparr> 0 =
   Inr \<lparr> seg_start = ''00:00:00'', seg_end = ''00:00:01'', seg_text = ''x'',
         seg_isChapterStart = True \<rparr>"
  by code_simp

lemma normalize_entry_just_before_base:
  "normalize_entry demo_env
     \<lparr> entry_text = ''x'', offset = Some (to_double (- (1 / 10000))), duration = None \<rparr> 0 =
   Inr \<lparr> seg_start = ''00:00:00'', seg_end = ''00:00:00'', seg_text = ''x'',
         seg_isChapterStart = True \<rparr>"
  by code_simp

lemma normalize_entry_across_zone_change:
  "normalize_entry
     (demo_env \<lparr> timezone_offset := (\<lambda>t. if t < 3600000 then 0 else 3600000) \<rparr>)
     \<lparr> entry_text = ''x'', offset = Some (Num 1800), duration = Some (Num 3600) \<rparr> 0 =
   Inr \<lparr> seg_start = ''00:30:00'', seg_end = ''02:30:00'', seg_text = ''x'',
         seg_isChapterStart = True \<rparr>"
  by code_simp






section \<open>Stored rows are not reordered\<close>

lemma digit_not_special:
  assumes "is_digit c"
  shows "\<not> is_ws c" "c \<noteq> CHR ''x''" "c \<noteq> CHR ''X''" "c \<noteq> CHR ''o''" "c \<noteq> CHR ''O''"
    "c \<noteq> CHR ''b''" "c \<noteq> CHR ''B''" "c \<noteq> CHR ''+''" "c \<noteq> CHR ''-''" "c \<noteq> CHR ''I''"
    "c \<noteq> CHR ''e''" "c \<noteq> CHR ''E''" "c \<noteq> CHR ''.''"
  using assms by (auto simp: is_digit_def is_ws_def)

lemma colon_not_digit: "\<not> is_digit CHR '':''"
  by (simp add: is_digit_def)

lemma trim_no_ws_ends:
  assumes "s \<noteq> []" "\<not> is_ws (hd s)" "\<not> is_ws (last s)"
  shows "trim s = s"
proof -
  from assms have a: "dropWhile is_ws s = s" by (cases s) auto
  from assms have "dropWhile is_ws (rev s) = rev s" by (cases "rev s") (auto simp: hd_rev)
  with a show ?thesis by (simp add: trim_def)
qed

text \<open>A clock string is not a numeric literal: as a number it is \<^verbatim>\<open>NaN\<close>.\<close>

lemma to_number_HHmmss:
  assumes "is_HHmmss s"
  shows "to_number s = NaN"
proof -
  from assms obtain h1 h2 m1 m2 s1 s2 where
    s: "s = [h1, h2, CHR '':'', m1, m2, CHR '':'', s1, s2]"
    and d: "is_digit h1" "is_digit h2" "is_digit m1" "is_digit m2" "is_digit s1" "is_digit s2"
    by (auto elim!: is_HHmmss.elims)
  have t: "trim s = s"
    by (rule trim_no_ws_ends) (simp_all add: s digit_not_special d)
  have m: "mantissa s = None"
    by (simp add: mantissa_def s digit_not_special d colon_not_digit)
  have u: "unsigned_decimal s = NaN"
    using m by (simp add: unsigned_decimal_def s digit_not_special d)
  show ?thesis
    unfolding to_number_def t Let_def using u
    by (simp add: s digit_not_special d)
qed

lemma by_start_HHmmss: "is_HHmmss (seg_start a) \<Longrightarrow> sort_compare by_start a b = 0"
  by (simp add: by_start_def to_number_HHmmss sort_compare_def js_sub_def)

lemma consistent_HHmmss:
  assumes "list_all (\<lambda>g. is_HHmmss (seg_start g)) gs"
  shows "consistent by_start gs"
proof -
  from assms have "\<And>a b. a \<in> set gs \<Longrightarrow> sort_compare by_start a b = 0"
    by (auto simp: list_all_iff by_start_HHmmss)
  then show ?thesis by (simp add: consistent_def list_all_iff)
qed

lemma insertion_keeps_order:
  "list_all (\<lambda>g. is_HHmmss (seg_start g)) gs \<Longrightarrow> foldr (insert_sorted by_start) gs [] = gs"
proof (induction gs)
  case Nil
  show ?case by simp
next
  case (Cons g gs)
  then have ih: "foldr (insert_sorted by_start) gs [] = gs" and g: "is_HHmmss (seg_start g)"
    by simp_all
  have "foldr (insert_sorted by_start) (g # gs) [] = insert_sorted by_start g gs"
    by (simp add: ih)
  also have "\<dots> = g # gs"
    using by_start_HHmmss [OF g] by (cases gs) simp_all
  finally show ?case .
qed

lemma array_sort_keeps_order:
  "list_all (\<lambda>g. is_HHmmss (seg_start g)) gs \<Longrightarrow> array_sort engine by_start gs = gs"
  by (simp add: array_sort_def consistent_HHmmss insertion_keeps_order)

text \<open>
  Whatever the order of the stored rows, when their starts are clock strings the comparator
  of line 141 finds them all equal, and the sort returns them as they were stored.
\<close>

lemma stored_rows_returned_unsorted:
  assumes "list_all (\<lambda>r. is_HHmmss (row_start r)) rows"
  shows "array_sort engine by_start (map of_row rows) = map of_row rows"
  by (rule array_sort_keeps_order) (use assms in \<open>simp add: list_all_iff of_row_def\<close>)

lemma fetchVideoTranscript_stored_order:
  assumes ok: "fst (fetchVideoTranscript_try e videoId s) = Inr r"
    and rows: "rows = filter (\<lambda>r. row_videoId r = videoId) (transcript_rows s)"
    and ne: "rows \<noteq> []"
    and clock: "list_all (\<lambda>r. is_HHmmss (row_start r)) rows"
  shows "segments r = map of_row rows"
proof -
  have srt: "array_sort (sort_inconsistent e) by_start (map of_row rows) = map of_row rows"
    by (rule stored_rows_returned_unsorted [OF clock])
  from ok rows ne show ?thesis
    by (auto simp: fetchVideoTranscript_try_def TranscriptRepository_getByVideoId_def Let_def
          srt [unfolded rows] split: sum.splits option.splits prod.splits if_splits)
qed

text \<open>The rows that the pipeline itself writes have such starts.\<close>

lemma digit_nth: "k < 10 \<Longrightarrow> is_digit (''0123456789'' ! k)"
proof -
  assume "k < 10"
  then have "k = 0 \<or> k = 1 \<or> k = 2 \<or> k = 3 \<or> k = 4 \<or> k = 5 \<or> k = 6 \<or> k = 7 \<or> k = 8 \<or> k = 9"
    by arith
  then show ?thesis by (elim disjE) (simp_all add: is_digit_def)
qed

lemma format_HHmmss_shape: "format_HHmmss e d = Inr s \<Longrightarrow> is_HHmmss s"
  by (cases d) (auto simp: format_HHmmss_def pad2_def Let_def digit_nth)

text \<open>With starts that are numeric literals the same comparator does sort.\<close>

lemma array_sort_numeric_starts:
  "map seg_start (array_sort engine by_start
     [\<lparr> seg_start = ''5'', seg_end = ''7'', seg_text = ''second'', seg_isChapterStart = False \<rparr>,
      \<lparr> seg_start = ''1'', seg_end = ''5'', seg_text = ''first'', seg_isChapterStart = True \<rparr>])
   = [''1'', ''5'']"
proof -
  have n: "to_number ''5'' = Num 5" "to_number ''1'' = Num 1" by code_simp+
  have d: "to_double 4 = Num 4" "to_double (- 4) = Num (- 4)" "to_double 0 = Num 0"
    by code_simp+
  have c: "sort_compare by_start a b =
      (if seg_start a = ''5'' \<and> seg_start b = ''1'' then 1
       else if seg_start a = ''1'' \<and> seg_start b = ''5'' then - 1 else 0)"
    if "seg_start a \<in> {''5'', ''1''}" "seg_start b \<in> {''5'', ''1''}" for a b
    using that by (auto simp: sort_compare_def by_start_def js_sub_def n d)
  show ?thesis
    by (simp add: array_sort_def consistent_def c)
qed

text \<open>
  Claim C1 says that when rows are stored for the video the returned segments are those rows
  sorted ascending by their \<^verbatim>\<open>HH:mm:ss\<close> start, regardless of stored order. The
  comparator of line 141 subtracts the two strings, which gives \<^verbatim>\<open>NaN\<close> for clock
  strings, so nothing is reordered: with the rows stored as 00:00:05, 00:00:01 the call
  returns them in that order, which is not ascending.
\<close>

theorem fetchVideoTranscript_returns_stored_order:
  "map seg_start (segments (fst (fetchVideoTranscript demo_env ''v1'' shuffled_db))) =
     [''00:00:05'', ''00:00:01''] \<and>
   \<not> sorted (map seg_start (segments (fst (fetchVideoTranscript demo_env ''v1'' shuffled_db))))"
proof -
  have "map seg_start (segments (fst (fetchVideoTranscript demo_env ''v1'' shuffled_db))) =
     [''00:00:05'', ''00:00:01'']" by code_simp
  moreover have "\<not> sorted [''00:00:05'', ''00:00:01'']" by code_simp
  ultimately show ?thesis by simp
qed

section \<open>Truncation of the transcript\<close>

lemma tokens_from_skip_ws: "tokens_from [] (dropWhile is_ws s) = tokens_from [] s"
  by (induction s) auto

lemma tokens_from_nonempty: "[] \<notin> set (tokens_from cur s)"
proof (induction s arbitrary: cur)
  case Nil
  show ?case by simp
next
  case (Cons c cs)
  from Cons.IH [of "[]"] Cons.IH [of "cur @ [c]"] show ?case by auto
qed

lemma last_after_ws:
  "is_ws c \<Longrightarrow>
   (dropWhile is_ws cs = [] \<or> is_ws (last (dropWhile is_ws cs))) \<longleftrightarrow> is_ws (last (c # cs))"
  by (induction cs arbitrary: c) auto

text \<open>
  The pieces of a split: the tokens, and an empty last piece when the string ends in white
  space or nothing has been read at all.
\<close>

lemma split_ws_from_tokens:
  "cur \<noteq> [] \<or> s = [] \<or> \<not> is_ws (hd s) \<Longrightarrow>
   split_ws_from cur s =
     tokens_from cur s @ (if (cur = [] \<and> s = []) \<or> (s \<noteq> [] \<and> is_ws (last s)) then [[]] else [])"
proof (induction cur s rule: split_ws_from.induct)
  case (1 cur)
  show ?case by simp
next
  case (2 cur c cs)
  show ?case
  proof (cases "is_ws c")
    case True
    with "2.prems" have cur: "cur \<noteq> []" by simp
    let ?t = "dropWhile is_ws cs"
    have pre: "?t = [] \<or> \<not> is_ws (hd ?t)"
      using hd_dropWhile [of is_ws cs] by blast
    have ih: "split_ws_from [] ?t =
        tokens_from [] ?t @ (if ?t = [] \<or> is_ws (last ?t) then [[]] else [])"
      using "2.IH"(1) [OF True] pre by auto
    have lastc: "(?t = [] \<or> is_ws (last ?t)) \<longleftrightarrow> is_ws (last (c # cs))"
      by (rule last_after_ws [OF True])
    have "split_ws_from cur (c # cs) = cur # split_ws_from [] ?t" using True by simp
    also have "\<dots> = cur # tokens_from [] cs @ (if is_ws (last (c # cs)) then [[]] else [])"
      unfolding ih tokens_from_skip_ws using lastc by simp
    also have "\<dots> = tokens_from cur (c # cs) @ (if is_ws (last (c # cs)) then [[]] else [])"
      using True cur by simp
    finally show ?thesis by simp
  next
    case False
    have ih: "split_ws_from (cur @ [c]) cs =
        tokens_from (cur @ [c]) cs @
        (if (cur @ [c] = [] \<and> cs = []) \<or> (cs \<noteq> [] \<and> is_ws (last cs)) then [[]] else [])"
      by (rule "2.IH"(2) [OF False]) simp
    from False ih show ?thesis by (cases "cs = []") simp_all
  qed
qed

lemma split_ws_tokens:
  "split_ws s =
     (if s \<noteq> [] \<and> is_ws (hd s) then [[]] else []) @ tokens s
     @ (if s = [] \<or> is_ws (last s) then [[]] else [])"
proof (cases s)
  case Nil
  then show ?thesis by (simp add: split_ws_def tokens_def)
next
  case (Cons c cs)
  show ?thesis
  proof (cases "is_ws c")
    case False
    with Cons split_ws_from_tokens [of "[]" s] show ?thesis
      by (simp add: split_ws_def tokens_def)
  next
    case True
    let ?t = "dropWhile is_ws cs"
    have pre: "[] \<noteq> [] \<or> ?t = [] \<or> \<not> is_ws (hd ?t)"
      using hd_dropWhile [of is_ws cs] by blast
    have lastc: "(?t = [] \<or> is_ws (last ?t)) \<longleftrightarrow> is_ws (last (c # cs))"
      by (rule last_after_ws [OF True])
    have sp: "split_ws_from [] ?t =
        tokens_from [] ?t @ (if ?t = [] \<or> is_ws (last ?t) then [[]] else [])"
      using split_ws_from_tokens [OF pre] by auto
    have "split_ws s = [] # split_ws_from [] ?t"
      using Cons True by (simp add: split_ws_def)
    also have "\<dots> = [] # tokens_from [] ?t @ (if is_ws (last (c # cs)) then [[]] else [])"
      using sp lastc by simp
    also have "tokens_from [] ?t = tokens s"
      using Cons True by (simp add: tokens_def tokens_from_skip_ws)
    finally show ?thesis using Cons True by simp
  qed
qed

lemma tokens_from_split:
  "tokens_from cur s = filter (\<lambda>w. w \<noteq> []) (split_ws_from cur s)"
proof (induction cur s rule: split_ws_from.induct)
  case (1 cur)
  show ?case by simp
next
  case (2 cur c cs)
  show ?case
  proof (cases "is_ws c")
    case True
    have "tokens_from [] cs = filter (\<lambda>w. w \<noteq> []) (split_ws_from [] (dropWhile is_ws cs))"
      using "2.IH"(1) [OF True] tokens_from_skip_ws [of cs] by simp
    with True show ?thesis by simp
  next
    case False
    with "2.IH"(2) show ?thesis by simp
  qed
qed

lemma tokens_from_word:
  "list_all (\<lambda>c. \<not> is_ws c) w \<Longrightarrow> tokens_from cur (w @ r) = tokens_from (cur @ w) r"
  by (induction w arbitrary: cur) auto

lemma tokens_word_space:
  assumes "list_all (\<lambda>c. \<not> is_ws c) w"
  shows "tokens_from [] (w @ '' '' @ r) =
           (if w = [] then tokens_from [] r else w # tokens_from [] r)"
  using tokens_from_word [OF assms, of "[]" "'' '' @ r"] by (simp add: is_ws_def)

lemma tokens_word:
  assumes "list_all (\<lambda>c. \<not> is_ws c) w"
  shows "tokens_from [] w = (if w = [] then [] else [w])"
  using tokens_from_word [OF assms, of "[]" "[]"] by simp

lemma tokens_join:
  "list_all (list_all (\<lambda>c. \<not> is_ws c)) ws \<Longrightarrow>
   tokens (js_join '' '' ws) = filter (\<lambda>w. w \<noteq> []) ws"
proof (induction "'' ''" ws rule: js_join.induct)
  case 1
  show ?case by (simp add: tokens_def)
next
  case (2 x)
  then show ?case by (simp add: tokens_def tokens_word)
next
  case (3 x y ys)
  from "3.prems" have x: "list_all (\<lambda>c. \<not> is_ws c) x"
    and r: "list_all (list_all (\<lambda>c. \<not> is_ws c)) (y # ys)" by simp_all
  have "tokens (js_join '' '' (y # ys)) = filter (\<lambda>w. w \<noteq> []) (y # ys)"
    using "3.hyps" r by blast
  then show ?case
    using tokens_word_space [OF x, of "js_join '' '' (y # ys)"]
    by (simp add: tokens_def)
qed

lemma split_ws_from_pieces:
  "list_all (\<lambda>c. \<not> is_ws c) cur \<Longrightarrow>
   list_all (list_all (\<lambda>c. \<not> is_ws c)) (split_ws_from cur s)"
  by (induction cur s rule: split_ws_from.induct) auto

lemma split_ws_pieces: "list_all (list_all (\<lambda>c. \<not> is_ws c)) (split_ws s)"
  by (simp add: split_ws_def split_ws_from_pieces)

lemma list_all_take: "list_all P xs \<Longrightarrow> list_all P (take n xs)"
  by (auto simp: list_all_iff dest: in_set_takeD)

lemma tokens_truncated:
  "tokens (js_join '' '' (take n (split_ws s))) = filter (\<lambda>w. w \<noteq> []) (take n (split_ws s))"
  by (rule tokens_join) (rule list_all_take, rule split_ws_pieces)

lemma filter_take_tokens:
  assumes "[] \<notin> set ts" and "set r \<subseteq> {[]}"
  shows "filter (\<lambda>w. w \<noteq> []) (take n (ts @ r)) = take n ts"
proof -
  have "filter (\<lambda>w. w \<noteq> []) (take n ts) = take n ts"
    using assms(1) by (auto simp: filter_id_conv dest: in_set_takeD)
  moreover have "filter (\<lambda>w. w \<noteq> []) (take (n - length ts) r) = []"
    using assms(2) by (auto simp: filter_empty_conv dest: in_set_takeD)
  ultimately show ?thesis by simp
qed

text \<open>
  Keeping the first \<open>n\<close> pieces keeps the first \<open>n\<close> tokens, or one less when the string
  starts with white space, since the empty first piece is counted.
\<close>

lemma tokens_of_kept_pieces:
  "tokens (js_join '' '' (take n (split_ws s))) =
     take (if s \<noteq> [] \<and> is_ws (hd s) then n - 1 else n) (tokens s)"
proof -
  define r where "r = (if s = [] \<or> is_ws (last s) then [[]] else ([] :: string list))"
  have ne: "[] \<notin> set (tokens s)" by (simp add: tokens_def tokens_from_nonempty)
  have r: "set r \<subseteq> {[]}" by (auto simp: r_def)
  have kept: "tokens (js_join '' '' (take n (split_ws s))) =
      filter (\<lambda>w. w \<noteq> []) (take n (split_ws s))"
    by (rule tokens_truncated)
  show ?thesis
  proof (cases "s \<noteq> [] \<and> is_ws (hd s)")
    case False
    then have "split_ws s = tokens s @ r"
      using split_ws_tokens [of s] by (auto simp: r_def)
    then have "filter (\<lambda>w. w \<noteq> []) (take n (split_ws s)) = take n (tokens s)"
      using filter_take_tokens [OF ne r, of n] by simp
    with kept False show ?thesis by auto
  next
    case True
    then have sp: "split_ws s = [] # (tokens s @ r)"
      using split_ws_tokens [of s] by (auto simp: r_def)
    show ?thesis
    proof (cases n)
      case 0
      with kept True show ?thesis by auto
    next
      case (Suc m)
      have "filter (\<lambda>w. w \<noteq> []) (take n (split_ws s)) =
          filter (\<lambda>w. w \<noteq> []) (take m (tokens s @ r))"
        by (simp add: sp Suc)
      also have "\<dots> = take m (tokens s)"
        by (rule filter_take_tokens [OF ne r])
      finally show ?thesis using kept True Suc by auto
    qed
  qed
qed

lemma prompt_embeds_transcript:
  "\<exists>before. quick_start_prompt e segs videoTitle videoDescription =
     before @ ''<transcript>'' @ [CHR 0x0A] @ truncatedTranscript segs @ [CHR 0x0A]
     @ ''</transcript>'' @ [CHR 0x0A]"
proof -
  let ?p = "getQuickStartPrompt e (resolve_language e 0)"
  let ?c = "contextSection videoTitle videoDescription"
  have "quick_start_prompt e segs videoTitle videoDescription =
      (?p @ nl @ nl @ (if ?c \<noteq> [] then ?c @ nl else []) @ ''Here is the video transcript:''
       @ nl @ nl)
      @ ''<transcript>'' @ [CHR 0x0A] @ truncatedTranscript segs @ [CHR 0x0A]
      @ ''</transcript>'' @ [CHR 0x0A]"
    by (simp add: quick_start_prompt_def build_prompt_def nl_def)
  then show ?thesis by blast
qed

lemma lead_texts: "map seg_text lead_segments = [] # replicate 6000 ''a''"
  by (simp add: lead_segments_def comp_def)

lemma lead_tokens: "tokens (js_join '' '' (map seg_text lead_segments)) = replicate 6000 ''a''"
proof -
  have "list_all (list_all (\<lambda>c. \<not> is_ws c)) ([] # replicate 6000 ''a'')"
    by (simp add: list_all_iff is_ws_def)
  from tokens_join [OF this] show ?thesis by (simp add: lead_texts)
qed

lemma lead_starts_with_space:
  "js_join '' '' (map seg_text lead_segments) \<noteq> [] \<and>
   is_ws (hd (js_join '' '' (map seg_text lead_segments)))"
proof -
  have "replicate 6000 ''a'' = ''a'' # replicate 5999 ''a''" by (simp add: numeral_eq_Suc)
  then show ?thesis by (simp add: lead_texts is_ws_def)
qed

text \<open>
  Claim C4 says that the segment texts are joined, split on white space, and that the first
  6000 tokens are kept. When the joined text starts with white space the split has an empty
  first piece, which takes one of the 6000 places: of the 6000 words that follow an empty
  first segment text, 5999 are kept.
\<close>

theorem leading_space_keeps_5999_tokens:
  "length (tokens (js_join '' '' (map seg_text lead_segments))) = 6000 \<and>
   length (tokens (truncatedTranscript lead_segments)) = 5999"
proof -
  have "tokens (truncatedTranscript lead_segments) =
      take 5999 (tokens (js_join '' '' (map seg_text lead_segments)))"
    using tokens_of_kept_pieces [of 6000 "js_join '' '' (map seg_text lead_segments)"]
      lead_starts_with_space
    by (simp add: truncatedTranscript_def)
  then show ?thesis by (simp add: lead_tokens)
qed

text \<open>
  Claim C4, amended. For every segment list passed to \<^verbatim>\<open>generateQuickStartQuestions\<close>,
  the transcript text placed between the \<^verbatim>\<open>transcript\<close> tags of the prompt is obtained by
  joining the segment texts with single spaces, splitting on white space, keeping the first
  6000 pieces and joining them with single spaces. Its white-space-delimited tokens are the
  first 6000 tokens of the joined text, or the first 5999 when the joined text starts with
  white space; so they are never more than 6000. (The tokens of words joined with single
  spaces are those words.)
\<close>

theorem truncatedTranscript_at_most_6000_tokens:
  "truncatedTranscript segs =
     js_join '' '' (take 6000 (split_ws (js_join '' '' (map seg_text segs)))) \<and>
   tokens (truncatedTranscript segs) =
     take (if js_join '' '' (map seg_text segs) \<noteq> [] \<and>
              is_ws (hd (js_join '' '' (map seg_text segs))) then 5999 else 6000)
       (tokens (js_join '' '' (map seg_text segs))) \<and>
   length (tokens (truncatedTranscript segs)) \<le> 6000 \<and>
   (\<exists>before. quick_start_prompt e segs videoTitle videoDescription =
      before @ ''<transcript>'' @ [CHR 0x0A] @ truncatedTranscript segs @ [CHR 0x0A]
      @ ''</transcript>'' @ [CHR 0x0A]) \<and>
   tokens (js_join '' '' (filter (\<lambda>w. w \<noteq> []) (map (filter (\<lambda>c. \<not> is_ws c)) ws))) =
     filter (\<lambda>w. w \<noteq> []) (map (filter (\<lambda>c. \<not> is_ws c)) ws)"
proof -
  let ?full = "js_join '' '' (map seg_text segs)"
  let ?words = "filter (\<lambda>w. w \<noteq> []) (map (filter (\<lambda>c. \<not> is_ws c)) ws)"
  have "list_all (list_all (\<lambda>c. \<not> is_ws c)) ?words"
    by (auto simp: list_all_iff)
  from tokens_join [OF this]
  have words: "tokens (js_join '' '' ?words) = ?words" by simp
  have eq: "truncatedTranscript segs = js_join '' '' (take 6000 (split_ws ?full))"
    by (simp add: truncatedTranscript_def)
  have tk: "tokens (truncatedTranscript segs) =
      take (if ?full \<noteq> [] \<and> is_ws (hd ?full) then 5999 else 6000) (tokens ?full)"
    unfolding eq using tokens_of_kept_pieces [of 6000 ?full] by simp
  have len: "length (tokens (truncatedTranscript segs)) \<le> 6000"
    by (auto simp: tk)
  from eq tk len words prompt_embeds_transcript [of e segs videoTitle videoDescription]
  show ?thesis by blast
qed

section \<open>Language preference and the summary\<close>

text \<open>
  Claim C8. The language-resolution step used by both orchestrators resolves to \<^verbatim>\<open>id\<close>
  only when a user is found and the stored preference is exactly \<^verbatim>\<open>id\<close>. When the user
  lookup throws, when there is no user, when the preference lookup throws, or when the
  stored value is anything but exactly \<^verbatim>\<open>en\<close> or \<^verbatim>\<open>id\<close> (absent, empty, another
  string), the language is \<^verbatim>\<open>en\<close>. The step has no failing outcome.
\<close>

theorem resolve_language_falls_back_to_en:
  "(resolve_language e call = Id \<longleftrightarrow>
      (\<exists>usr. getCurrentUser e call = Inr (Some usr) \<and>
             getPreferredLanguage e (user_id usr) = Inr (Some ''id''))) \<and>
   (\<forall>x. getCurrentUser e call = Inl x \<longrightarrow> resolve_language e call = En) \<and>
   (getCurrentUser e call = Inr None \<longrightarrow> resolve_language e call = En) \<and>
   (\<forall>usr x. getCurrentUser e call = Inr (Some usr) \<and>
            getPreferredLanguage e (user_id usr) = Inl x \<longrightarrow> resolve_language e call = En) \<and>
   (\<forall>usr v. getCurrentUser e call = Inr (Some usr) \<and>
            getPreferredLanguage e (user_id usr) = Inr v \<and> v \<noteq> Some ''en'' \<and> v \<noteq> Some ''id''
            \<longrightarrow> resolve_language e call = En)"
  by (auto simp: resolve_language_def id_of_def split: sum.splits option.splits)

theorem resolve_language_falls_back_to_en_witness:
  "resolve_language demo_env 0 = Id \<and>
   resolve_language (demo_env \<lparr> getCurrentUser := (\<lambda>n. Inl (Error ''no session'')) \<rparr>) 0 = En \<and>
   resolve_language (demo_env \<lparr> getCurrentUser := (\<lambda>n. Inr None) \<rparr>) 0 = En \<and>
   resolve_language
     (demo_env \<lparr> getPreferredLanguage := (\<lambda>u. Inl (Error ''storage'')) \<rparr>) 0 = En \<and>
   resolve_language (demo_env \<lparr> getPreferredLanguage := (\<lambda>u. Inr (Some ''fr'')) \<rparr>) 0 = En \<and>
   resolve_language (demo_env \<lparr> getPreferredLanguage := (\<lambda>u. Inr None) \<rparr>) 0 = En \<and>
   resolve_language (demo_env \<lparr> getPreferredLanguage := (\<lambda>u. Inr (Some [])) \<rparr>) 0 = En"
  using resolve_language_falls_back_to_en [of demo_env 0]
    resolve_language_falls_back_to_en
      [of "demo_env \<lparr> getCurrentUser := (\<lambda>n. Inl (Error ''no session'')) \<rparr>" 0]
    resolve_language_falls_back_to_en [of "demo_env \<lparr> getCurrentUser := (\<lambda>n. Inr None) \<rparr>" 0]
    resolve_language_falls_back_to_en
      [of "demo_env \<lparr> getPreferredLanguage := (\<lambda>u. Inl (Error ''storage'')) \<rparr>" 0]
    resolve_language_falls_back_to_en
      [of "demo_env \<lparr> getPreferredLanguage := (\<lambda>u. Inr (Some ''fr'')) \<rparr>" 0]
    resolve_language_falls_back_to_en
      [of "demo_env \<lparr> getPreferredLanguage := (\<lambda>u. Inr None) \<rparr>" 0]
    resolve_language_falls_back_to_en
      [of "demo_env \<lparr> getPreferredLanguage := (\<lambda>u. Inr (Some [])) \<rparr>" 0]
  by (simp add: demo_env_def)


section \<open>The unavailable result\<close>







section \<open>Telemetry, persistence and the returned questions\<close>










end
